theory Spec2Isabelle
  imports Complex_Main "HOL-Library.Sublist" "HOL-Library.Log_Nat"
begin

section \<open>Python strings\<close>

text \<open>
  Review text is a Python \<open>str\<close>. It is modelled as a \<open>string\<close> over Isabelle's
  8-bit characters, read as the code points U+0000 to U+00FF. On that range
  \<open>str.lower\<close> works character by character: it moves A to Z, and the accented capitals
  U+00C0 to U+00DE other than the multiplication sign U+00D7, up by 32.
\<close>

definition lower_char :: "char \<Rightarrow> char" where
  "lower_char c =
     (let n = (of_char c :: nat)
      in if (65 \<le> n \<and> n \<le> 90) \<or> (192 \<le> n \<and> n \<le> 214) \<or> (216 \<le> n \<and> n \<le> 222)
         then char_of (n + 32) else c)"

definition lower :: "string \<Rightarrow> string" where
  "lower s = map lower_char s"

text \<open>
  \<open>str.title\<close> is applied by the program only to the phrases of its own service
  vocabulary, which consist of the letters a to z and spaces: the first letter of every
  run of letters is capitalised, the others are lower-cased.
\<close>

definition is_ascii_letter :: "char \<Rightarrow> bool" where
  "is_ascii_letter c =
     (let n = (of_char c :: nat) in (65 \<le> n \<and> n \<le> 90) \<or> (97 \<le> n \<and> n \<le> 122))"

definition upper_char :: "char \<Rightarrow> char" where
  "upper_char c =
     (let n = (of_char c :: nat) in if 97 \<le> n \<and> n \<le> 122 then char_of (n - 32) else c)"

fun title_from :: "bool \<Rightarrow> string \<Rightarrow> string" where
  "title_from prev [] = []"
| "title_from prev (c # cs) =
     (if is_ascii_letter c
      then (if prev then lower_char c else upper_char c) # title_from True cs
      else c # title_from False cs)"

definition title :: "string \<Rightarrow> string" where
  "title s = title_from False s"

text \<open>\<open>s.startswith(sub)\<close>, \<open>sub in s\<close> and \<open>s.count(sub)\<close>. The count is Python's:
  occurrences are found from the left and do not overlap, and the empty string occurs
  \<open>len(s) + 1\<close> times.\<close>

fun startswith :: "string \<Rightarrow> string \<Rightarrow> bool" where
  "startswith s [] = True"
| "startswith [] (c # sub) = False"
| "startswith (x # s) (c # sub) = (x = c \<and> startswith s sub)"

fun contains :: "string \<Rightarrow> string \<Rightarrow> bool" where
  "contains [] sub = (sub = [])"
| "contains (x # s) sub = (startswith (x # s) sub \<or> contains s sub)"

fun count_nonempty :: "string \<Rightarrow> string \<Rightarrow> nat" where
  "count_nonempty [] sub = 0"
| "count_nonempty (x # s) sub =
     (if startswith (x # s) sub then Suc (count_nonempty (drop (length sub - 1) s) sub)
      else count_nonempty s sub)"

definition str_count :: "string \<Rightarrow> string \<Rightarrow> nat" where
  "str_count s sub = (if sub = [] then Suc (length s) else count_nonempty s sub)"

text \<open>\<open>sep.join(parts)\<close>.\<close>

fun join :: "string \<Rightarrow> string list \<Rightarrow> string" where
  "join sep [] = []"
| "join sep [p] = p"
| "join sep (p # q # ps) = p @ sep @ join sep (q # ps)"


section \<open>Regular expressions: \<open>re.findall\<close>\<close>

text \<open>
  The pricing patterns of the program use only single-character classes under the greedy
  quantifiers \<open>+\<close>, \<open>*\<close> and \<open>?\<close>, with no groups and no alternation. A pattern is a
  list of such items. The flag \<open>re.IGNORECASE\<close> makes a literal match both cases.
  On the code points below 256, \<open>\d\<close> is 0 to 9, \<open>\s\<close> is the Unicode white space
  (9 to 13, 28 to 32, 133 and 160) and \<open>.\<close> is everything but the line feed.
\<close>

datatype cls = Lit char | Digit | Space | Dot | Bracket "cls list"

fun cls_match :: "cls \<Rightarrow> char \<Rightarrow> bool" where
  "cls_match (Lit c) x = (lower_char x = lower_char c)"
| "cls_match Digit x = (let n = (of_char x :: nat) in 48 \<le> n \<and> n \<le> 57)"
| "cls_match Space x =
     (let n = (of_char x :: nat)
      in (9 \<le> n \<and> n \<le> 13) \<or> (28 \<le> n \<and> n \<le> 32) \<or> n = 133 \<or> n = 160)"
| "cls_match Dot x = ((of_char x :: nat) \<noteq> 10)"
| "cls_match (Bracket cs) x = list_ex (\<lambda>c. cls_match c x) cs"

datatype item = One cls | Star cls | Plus cls | Opt cls

type_synonym pattern = "item list"

text \<open>
  \<open>match_here p s\<close> is the backtracking matcher anchored at the start of \<open>s\<close>: the length
  of the first match in the engine's order of preference (a greedy quantifier takes one
  more character before it tries to go on without it), or \<open>None\<close>.
\<close>

fun match_here :: "pattern \<Rightarrow> string \<Rightarrow> nat option" where
  "match_here [] s = Some 0"
| "match_here (One c # r) [] = None"
| "match_here (One c # r) (x # s) =
     (if cls_match c x then map_option Suc (match_here r s) else None)"
| "match_here (Opt c # r) [] = match_here r []"
| "match_here (Opt c # r) (x # s) =
     (if cls_match c x
      then (case match_here r s of Some n \<Rightarrow> Some (Suc n) | None \<Rightarrow> match_here r (x # s))
      else match_here r (x # s))"
| "match_here (Star c # r) [] = match_here r []"
| "match_here (Star c # r) (x # s) =
     (if cls_match c x
      then (case match_here (Star c # r) s of Some n \<Rightarrow> Some (Suc n)
            | None \<Rightarrow> match_here r (x # s))
      else match_here r (x # s))"
| "match_here (Plus c # r) [] = None"
| "match_here (Plus c # r) (x # s) =
     (if cls_match c x then map_option Suc (match_here (Star c # r) s) else None)"

text \<open>
  \<open>re.findall\<close> without groups: the matched substrings, scanning from the left, each
  search starting where the previous match ended.
\<close>

fun findall :: "pattern \<Rightarrow> string \<Rightarrow> string list" where
  "findall p [] = (case match_here p [] of None \<Rightarrow> [] | Some n \<Rightarrow> [[]])"
| "findall p (x # s) =
     (case match_here p (x # s) of
        None \<Rightarrow> findall p s
      | Some n \<Rightarrow> take n (x # s) # findall p (drop (n - 1) s))"

definition lit :: "string \<Rightarrow> pattern" where
  "lit s = map (\<lambda>c. One (Lit c)) s"

definition amount :: pattern where
  \<comment> \<open>\<open>\$[\d,]+\<close>\<close>
  "amount = [One (Lit (CHR ''$'')), Plus (Bracket [Digit, Lit (CHR '','')])]"

definition square_foot :: pattern where
  \<comment> \<open>\<open>square\s*foot\<close>\<close>
  "square_foot = lit ''square'' @ [Star Space] @ lit ''foot''"

definition price_patterns :: "pattern list" where
  "price_patterns =
     [amount,
      [Plus (Bracket [Digit, Lit (CHR '','')]), Star Space] @ lit ''dollar'' @ [Opt (Lit (CHR ''s''))],
      lit ''cost'' @ [Star Dot] @ amount,
      lit ''price'' @ [Star Dot] @ amount,
      lit ''quote'' @ [Star Dot] @ amount,
      lit ''estimate'' @ [Star Dot] @ amount,
      amount @ [Star Dot] @ square_foot,
      [Plus (Bracket [Digit, Lit (CHR ''.'')]), Star Space] @ lit ''per'' @ [Star Space] @ square_foot]"

section \<open>Floating point\<close>

text \<open>
  A Python \<open>float\<close> is modelled by the rational number it denotes. Where a claim depends
  on the rounding of a division, the result is rounded to the nearest double (53
  significant bits, ties to even), as CPython's true division of integers and its
  reading of a decimal literal do. Overflow and subnormal numbers are not modelled.
\<close>

definition round_half_even :: "rat \<Rightarrow> int" where
  "round_half_even x =
     (let f = \<lfloor>x\<rfloor>; d = x - of_int f
      in if d < 1 / 2 then f else if 1 / 2 < d then f + 1 else if even f then f else f + 1)"

definition floor_log2 :: "rat \<Rightarrow> int" where
  \<comment> \<open>for \<open>0 < x\<close>: the \<open>e\<close> with \<open>2 ^ e \<le> x < 2 ^ (e + 1)\<close>\<close>
  "floor_log2 x =
     (let (a, b) = quotient_of x; e = bitlen a - bitlen b
      in if 2 powi e \<le> x then e else e - 1)"

definition to_double :: "rat \<Rightarrow> rat" where
  "to_double x =
     (if x = 0 then 0
      else let a = \<bar>x\<bar>; u = 2 powi (floor_log2 a - 52)
           in sgn x * of_int (round_half_even (a / u)) * u)"

text \<open>\<open>round(x, 2)\<close> and \<open>int(x)\<close>.\<close>

definition round2 :: "rat \<Rightarrow> rat" where
  "round2 x = of_int (round_half_even (x * 100)) / 100"

definition py_int :: "rat \<Rightarrow> int" where
  "py_int x = (if 0 \<le> x then \<lfloor>x\<rfloor> else \<lceil>x\<rceil>)"


section \<open>Data model\<close>

text \<open>
  The provider's JSON objects are records whose optional keys are \<open>option\<close> fields. A
  review is read only at its key \<open>text\<close>. A detail record has the seven keys that
  \<open>get_place_details\<close> asks for; it is the empty dictionary when all are absent.
\<close>

record review =
  r_text :: "string option"

record details =
  d_name :: "string option"
  d_formatted_address :: "string option"
  d_formatted_phone_number :: "string option"
  d_rating :: "rat option"
  d_user_ratings_total :: "int option"
  d_website :: "string option"
  d_reviews :: "review list option"

record place =
  place_id :: string
  place_lat :: rat
  place_lng :: rat

record page =
  page_status :: string
  page_results :: "place list"
  next_page_token :: "string option"

record details_response =
  resp_status :: string
  resp_result :: details

record geocode_response =
  geo_status :: string
  geo_lat :: rat
  geo_lng :: rat

record search_params =
  sp_location :: "rat \<times> rat"
  sp_radius :: int
  sp_pagetoken :: "string option"

record competitor =
  name :: string
  address :: string
  phone :: string
  rating :: rat
  review_count :: int
  website :: string
  distance_miles :: rat
  pricing_info :: "string list"
  services :: "string list"
  positive_keywords :: "string list"
  negative_keywords :: "string list"
  review_themes :: "(string \<times> nat) list"

text \<open>
  The outside of the program: the three web services answering a request, and geopy's
  \<open>geodesic(a, b).miles\<close>.
\<close>

record env =
  geocode_api :: "string \<Rightarrow> geocode_response"
  search_api :: "search_params \<Rightarrow> page"
  details_api :: "string \<Rightarrow> details_response"
  geodesic_miles :: "rat \<times> rat \<Rightarrow> rat \<times> rat \<Rightarrow> rat"

datatype error = GeocodingFailed string | ZeroDivisionError

definition get_or :: "'a option \<Rightarrow> 'a \<Rightarrow> 'a" where
  \<comment> \<open>\<open>d.get(key, default)\<close>\<close>
  "get_or v fallback = (case v of None \<Rightarrow> fallback | Some x \<Rightarrow> x)"

definition empty_details :: details where
  "empty_details =
     \<lparr>d_name = None, d_formatted_address = None, d_formatted_phone_number = None,
      d_rating = None, d_user_ratings_total = None, d_website = None, d_reviews = None\<rparr>"

definition details_empty :: "details \<Rightarrow> bool" where
  \<comment> \<open>\<open>not details\<close>\<close>
  "details_empty d =
     (d_name d = None \<and> d_formatted_address d = None \<and> d_formatted_phone_number d = None
      \<and> d_rating d = None \<and> d_user_ratings_total d = None \<and> d_website d = None
      \<and> d_reviews d = None)"

section \<open>The keyword taxonomy\<close>

text \<open>The dictionary \<open>opportunity_keywords\<close> in its insertion order, and the two lists
  of sentiment indicators.\<close>

definition opportunity_keywords :: "(string \<times> string list) list" where
  "opportunity_keywords =
     [(''speed'', [''fast'', ''quick'', ''prompt'', ''timely'', ''on time'', ''efficient'']),
      (''quality'', [''quality'', ''excellent'', ''professional'', ''skilled'', ''expert'',
         ''craftsmanship'']),
      (''price'', [''affordable'', ''reasonable'', ''cheap'', ''expensive'', ''overpriced'',
         ''fair price'']),
      (''communication'', [''responsive'', ''communicative'', ''explained'', ''kept informed'',
         ''poor communication'']),
      (''cleanup'', [''clean'', ''cleanup'', ''messy'', ''left debris'', ''neat'', ''tidy'']),
      (''warranty'', [''warranty'', ''guarantee'', ''stands behind work'', ''honor warranty'']),
      (''insurance'', [''insurance'', ''claim'', ''insurance work'', ''help with insurance'']),
      (''emergency'', [''emergency'', ''urgent'', ''storm damage'', ''leak'', ''immediate'']),
      (''materials'', [''materials'', ''shingles'', ''metal'', ''tile'', ''membrane'',
         ''quality materials'']),
      (''experience'', [''experienced'', ''years in business'', ''knowledgeable'',
         ''inexperienced'']),
      (''scheduling'', [''flexible'', ''scheduling'', ''appointment'', ''showed up'',
         ''no show'', ''late'']),
      (''estimate'', [''free estimate'', ''accurate estimate'', ''detailed quote'',
         ''overestimate''])]"

definition negative_indicators :: "string list" where
  "negative_indicators =
     [''disappointed'', ''unprofessional'', ''rude'', ''late'', ''no show'', ''poor'',
      ''terrible'', ''awful'', ''bad'', ''worst'', ''avoid'', ''scam'', ''overcharged'',
      ''shoddy'', ''cheap work'', ''leaked'', ''failed'', ''damaged'', ''nightmare'']"

definition positive_indicators :: "string list" where
  "positive_indicators =
     [''excellent'', ''amazing'', ''professional'', ''recommend'', ''great'', ''fantastic'',
      ''wonderful'', ''outstanding'', ''perfect'', ''impressed'', ''satisfied'', ''happy'',
      ''reliable'', ''trustworthy'', ''honest'', ''fair'', ''quality work'']"

definition service_keywords :: "string list" where
  "service_keywords =
     [''roof repair'', ''roof replacement'', ''roof installation'',
      ''shingle'', ''metal roof'', ''tile roof'', ''flat roof'',
      ''gutter'', ''siding'', ''leak repair'', ''storm damage'',
      ''insurance claims'', ''emergency repair'', ''inspection'',
      ''maintenance'', ''ventilation'', ''skylight'']"

section \<open>Text mining\<close>

text \<open>
  \<open>extract_pricing_from_reviews\<close>: three nested loops over the reviews, the patterns and
  the matches, appending to \<open>pricing_info\<close> each match that is not in it yet.
\<close>

fun add_matches :: "string list \<Rightarrow> string list \<Rightarrow> string list" where
  "add_matches pricing [] = pricing"
| "add_matches pricing (m # ms) =
     add_matches (if m \<in> set pricing then pricing else pricing @ [m]) ms"

fun scan_patterns :: "string list \<Rightarrow> string \<Rightarrow> pattern list \<Rightarrow> string list" where
  "scan_patterns pricing txt [] = pricing"
| "scan_patterns pricing txt (p # ps) =
     scan_patterns (add_matches pricing (findall p txt)) txt ps"

fun scan_reviews :: "string list \<Rightarrow> review list \<Rightarrow> string list" where
  "scan_reviews pricing [] = pricing"
| "scan_reviews pricing (r # rs) =
     scan_reviews (scan_patterns pricing (lower (get_or (r_text r) [])) price_patterns) rs"

definition extract_pricing_from_reviews :: "review list \<Rightarrow> string list" where
  "extract_pricing_from_reviews revs = scan_reviews [] revs"

text \<open>
  \<open>extract_services_from_text\<close>. The source returns \<open>list(set(services))\<close>, whose order
  Python leaves open; the vocabulary has no repeated phrase, so the set drops nothing,
  and the model keeps the vocabulary's order.
\<close>

definition extract_services_from_text :: "string \<Rightarrow> string list" where
  "extract_services_from_text txt =
     (let text_lower = lower txt
      in map title (filter (\<lambda>keyword. contains text_lower keyword) service_keywords))"

text \<open>
  \<open>analyze_review_keywords\<close>. The dictionary \<open>themes\<close> is the list of its items in
  insertion order; the loop runs over the keys of a dictionary, so every insertion
  is of a new key.
\<close>

fun count_themes :: "string \<Rightarrow> (string \<times> string list) list \<Rightarrow> (string \<times> nat) list" where
  "count_themes all_text [] = []"
| "count_themes all_text ((theme, keywords) # rest) =
     (let count = sum_list (map (\<lambda>keyword. str_count all_text keyword) keywords)
      in if 0 < count then (theme, count) # count_themes all_text rest
         else count_themes all_text rest)"

definition review_blob :: "review list \<Rightarrow> string" where
  "review_blob revs = join '' '' (map (\<lambda>r. lower (get_or (r_text r) [])) revs)"

definition analyze_review_keywords ::
  "review list \<Rightarrow> string list \<times> string list \<times> (string \<times> nat) list" where
  "analyze_review_keywords revs =
     (let all_text = review_blob revs;
          positive_found = filter (\<lambda>keyword. contains all_text keyword) positive_indicators;
          negative_found = filter (\<lambda>keyword. contains all_text keyword) negative_indicators;
          themes = count_themes all_text opportunity_keywords
      in (positive_found, negative_found, themes))"


section \<open>The pipeline\<close>

definition geocode_address :: "env \<Rightarrow> string \<Rightarrow> error + rat \<times> rat" where
  "geocode_address e addr =
     (let data = geocode_api e addr
      in if geo_status data = ''OK'' then Inr (geo_lat data, geo_lng data)
         else Inl (GeocodingFailed (geo_status data)))"

text \<open>
  \<open>search_nearby_roofing_companies\<close>. \<open>fetch\<close> is the request for one page, given the
  page token or none. The \<open>while\<close> loop goes on for as long as the provider hands out
  tokens with successful pages, so it is a partial function: \<open>None\<close> is a search that
  never returns.
\<close>

partial_function (option) paginate ::
  "(string option \<Rightarrow> page) \<Rightarrow> page \<Rightarrow> place list \<Rightarrow> place list option" where
  "paginate fetch data all_results =
     (case next_page_token data of
        None \<Rightarrow> Some all_results
      | Some token \<Rightarrow>
          (let data' = fetch (Some token)
           in if page_status data' = ''OK''
              then paginate fetch data' (all_results @ page_results data')
              else Some all_results))"

declare paginate.simps [code]

definition search_pages :: "(string option \<Rightarrow> page) \<Rightarrow> place list option" where
  "search_pages fetch =
     (let data = fetch None
      in if page_status data = ''OK'' then paginate fetch data ([] @ page_results data)
         else Some [])"

text \<open>
  The request of one page. The radius in metres, \<open>int(radius_miles * 1609.34)\<close>, is
  taken over the rationals; it is passed to the provider and no result depends on it.
\<close>

definition search_request :: "env \<Rightarrow> rat \<Rightarrow> rat \<Rightarrow> int \<Rightarrow> string option \<Rightarrow> page" where
  "search_request e lat lng radius_miles token =
     (let radius_meters = of_int radius_miles * (160934 / 100)
      in search_api e
           \<lparr>sp_location = (lat, lng), sp_radius = py_int radius_meters, sp_pagetoken = token\<rparr>)"

definition search_nearby_roofing_companies ::
  "env \<Rightarrow> rat \<Rightarrow> rat \<Rightarrow> int \<Rightarrow> place list option" where
  "search_nearby_roofing_companies e lat lng radius_miles =
     search_pages (search_request e lat lng radius_miles)"

definition get_place_details :: "env \<Rightarrow> string \<Rightarrow> details" where
  "get_place_details e pid =
     (let data = details_api e pid
      in if resp_status data = ''OK'' then resp_result data else empty_details)"

text \<open>The body of the loop over the places, after the test \<open>if not details: continue\<close>.\<close>

definition make_competitor :: "env \<Rightarrow> rat \<times> rat \<Rightarrow> place \<Rightarrow> details \<Rightarrow> competitor" where
  "make_competitor e origin pl det =
     (let distance = geodesic_miles e origin (place_lat pl, place_lng pl);
          revs = get_or (d_reviews det) [];
          pricing = extract_pricing_from_reviews revs;
          all_text = join '' '' (map (\<lambda>r. get_or (r_text r) []) revs);
          servs = extract_services_from_text (all_text @ '' '' @ get_or (d_name det) []);
          (positive, negative, themes) = analyze_review_keywords revs
      in \<lparr>name = get_or (d_name det) ''Unknown'',
          address = get_or (d_formatted_address det) ''Unknown'',
          phone = get_or (d_formatted_phone_number det) ''Not available'',
          rating = get_or (d_rating det) 0,
          review_count = get_or (d_user_ratings_total det) 0,
          website = get_or (d_website det) ''Not available'',
          distance_miles = round2 distance,
          pricing_info = pricing,
          services = servs,
          positive_keywords = positive,
          negative_keywords = negative,
          review_themes = themes\<rparr>)"

fun build_competitors :: "env \<Rightarrow> rat \<times> rat \<Rightarrow> place list \<Rightarrow> competitor list" where
  "build_competitors e origin [] = []"
| "build_competitors e origin (pl # places) =
     (let det = get_place_details e (place_id pl)
      in if details_empty det then build_competitors e origin places
         else make_competitor e origin pl det # build_competitors e origin places)"

text \<open>\<open>competitors.sort(key=lambda x: x.distance_miles)\<close>: Python's sort is stable.\<close>

definition sort_by_distance :: "competitor list \<Rightarrow> competitor list" where
  "sort_by_distance cs = sort_key distance_miles cs"

text \<open>
  \<open>analyze_competitors\<close>; \<open>main\<close> repeats the same steps inline. The outer \<open>option\<close>
  is \<open>None\<close> when the search never returns.
\<close>

definition analyze_competitors :: "env \<Rightarrow> string \<Rightarrow> int \<Rightarrow> (error + competitor list) option" where
  "analyze_competitors e your_address radius_miles =
     (case geocode_address e your_address of
        Inl err \<Rightarrow> Some (Inl err)
      | Inr (your_lat, your_lng) \<Rightarrow>
          (case search_nearby_roofing_companies e your_lat your_lng radius_miles of
             None \<Rightarrow> None
           | Some places \<Rightarrow>
               Some (Inr (sort_by_distance (build_competitors e (your_lat, your_lng) places)))))"

section \<open>Summary metrics and market opportunities\<close>

text \<open>
  The metric \<open>Avg Rating\<close> of \<open>main\<close>:
  \<^verbatim>\<open>sum(c.rating for c in competitors if c.rating > 0) / len([c for c in competitors if c.rating > 0])\<close>.
  The sum and the quotient are taken over the rationals.
\<close>

definition avg_rating :: "competitor list \<Rightarrow> error + rat" where
  "avg_rating cs =
     (let rated = filter (\<lambda>c. 0 < rating c) cs
      in if length rated = 0 then Inl ZeroDivisionError
         else Inr (sum_list (map rating rated) / of_nat (length rated)))"

definition total_reviews :: "competitor list \<Rightarrow> int" where
  "total_reviews cs = sum_list (map review_count cs)"

text \<open>\<open>collections.Counter\<close> over a list: the items in the order of first insertion.\<close>

fun counter_add :: "(string \<times> nat) list \<Rightarrow> string \<Rightarrow> (string \<times> nat) list" where
  "counter_add [] k = [(k, 1)]"
| "counter_add ((k', n) # rest) k =
     (if k' = k then (k', Suc n) # rest else (k', n) # counter_add rest k)"

definition counter :: "string list \<Rightarrow> (string \<times> nat) list" where
  "counter xs = fold (\<lambda>k c. counter_add c k) xs []"

text \<open>
  The service gaps: \<open>count / total_competitors < 0.3\<close> is a division of integers in
  double precision compared with the double written \<open>0.3\<close>. A gap is recorded with the
  three values that the source formats into its message.
\<close>

definition is_gap :: "nat \<Rightarrow> nat \<Rightarrow> bool" where
  "is_gap count total_competitors =
     (to_double (of_nat count / of_nat total_competitors) < to_double (3 / 10))"

fun gaps_loop :: "(string \<times> nat) list \<Rightarrow> nat \<Rightarrow> error + (string \<times> nat \<times> nat) list" where
  "gaps_loop [] total_competitors = Inr []"
| "gaps_loop ((service, count) # items) total_competitors =
     (if total_competitors = 0 then Inl ZeroDivisionError
      else case gaps_loop items total_competitors of
             Inl err \<Rightarrow> Inl err
           | Inr gaps \<Rightarrow>
               Inr (if is_gap count total_competitors
                    then (service, count, total_competitors) # gaps else gaps))"

definition service_gaps :: "competitor list \<Rightarrow> error + (string \<times> nat \<times> nat) list" where
  "service_gaps cs =
     (let all_services = concat (map services cs);
          service_counter = counter all_services;
          total_competitors = length cs
      in gaps_loop service_counter total_competitors)"

text \<open>The column \<open>Top Complaints\<close> of \<open>create_competitor_dataframe\<close>.\<close>

definition top_complaints :: "competitor \<Rightarrow> string" where
  "top_complaints c =
     (if negative_keywords c \<noteq> [] then join ''; '' (take 3 (negative_keywords c))
      else ''None'')"


section \<open>Notions of the specification\<close>

text \<open>
  \<open>served fetch token pages\<close>: \<open>pages\<close> is the sequence of responses that the provider
  gives to the successive page requests, from the request with \<open>token\<close> on. Every page
  but the last is successful and carries the token of the next request; at the last one
  the pagination ends, by a status other than \<open>OK\<close> or by the absence of a token.
\<close>

fun served :: "(string option \<Rightarrow> page) \<Rightarrow> string option \<Rightarrow> page list \<Rightarrow> bool" where
  "served fetch token [] = False"
| "served fetch token [p] =
     (fetch token = p \<and> (page_status p \<noteq> ''OK'' \<or> next_page_token p = None))"
| "served fetch token (p # q # pages) =
     (fetch token = p \<and> page_status p = ''OK'' \<and> next_page_token p \<noteq> None
      \<and> served fetch (next_page_token p) (q # pages))"

text \<open>
  First-seen order without duplicates, as the specification words it for the pricing
  mentions: an element is kept where it occurs for the first time.
\<close>

fun first_seen_after :: "'a list \<Rightarrow> 'a list \<Rightarrow> 'a list" where
  "first_seen_after seen [] = []"
| "first_seen_after seen (x # xs) =
     (if x \<in> set seen then first_seen_after seen xs else x # first_seen_after (x # seen) xs)"

definition spec_first_seen :: "'a list \<Rightarrow> 'a list" where
  "spec_first_seen xs = first_seen_after [] xs"

definition all_matches :: "review list \<Rightarrow> string list" where
  \<comment> \<open>every match of every pattern in every single review, in the order of the loops\<close>
  "all_matches revs =
     concat (map (\<lambda>r. concat (map (\<lambda>p. findall p (lower (get_or (r_text r) []))) price_patterns))
               revs)"


section \<open>Scenarios\<close>

text \<open>
  A provider with two pages of results and a third request that fails. The details of
  the second place cannot be fetched; the first and the third place are equally far.
  Distances run along a meridian, 69 miles to the degree.
\<close>

definition meridian_miles :: "rat \<times> rat \<Rightarrow> rat \<times> rat \<Rightarrow> rat" where
  "meridian_miles a b = 69 * \<bar>fst b - fst a\<bar>"

definition named :: "string \<Rightarrow> rat \<Rightarrow> details_response" where
  "named n r =
     \<lparr>resp_status = ''OK'', resp_result = empty_details\<lparr>d_name := Some n, d_rating := Some r\<rparr>\<rparr>"

definition place_a :: place where
  "place_a = \<lparr>place_id = ''a'', place_lat = 40 + 3 / 69, place_lng = - 75\<rparr>"

definition place_b :: place where
  "place_b = \<lparr>place_id = ''b'', place_lat = 40 + 2 / 69, place_lng = - 75\<rparr>"

definition place_c :: place where
  "place_c = \<lparr>place_id = ''c'', place_lat = 40 - 3 / 69, place_lng = - 75\<rparr>"

definition place_d :: place where
  "place_d = \<lparr>place_id = ''d'', place_lat = 40 + 1 / 69, place_lng = - 75\<rparr>"

definition page_one :: page where
  "page_one = \<lparr>page_status = ''OK'', page_results = [place_a, place_b],
                next_page_token = Some ''t1''\<rparr>"

definition page_two :: page where
  "page_two = \<lparr>page_status = ''OK'', page_results = [place_c, place_d],
                next_page_token = Some ''t2''\<rparr>"

definition page_three :: page where
  "page_three = \<lparr>page_status = ''INVALID_REQUEST'', page_results = [],
                  next_page_token = None\<rparr>"

definition no_results_page :: page where
  "no_results_page = \<lparr>page_status = ''ZERO_RESULTS'', page_results = [],
                       next_page_token = None\<rparr>"

definition town_env :: env where
  "town_env =
     \<lparr>geocode_api = (\<lambda>addr. \<lparr>geo_status = ''OK'', geo_lat = 40, geo_lng = - 75\<rparr>),
      search_api = (\<lambda>req. if sp_pagetoken req = None then page_one
                           else if sp_pagetoken req = Some ''t1'' then page_two
                           else page_three),
      details_api = (\<lambda>pid. if pid = ''a'' then named ''Apex Roofing'' (9 / 2)
                            else if pid = ''c'' then named ''Crest Gutter Works'' 4
                            else if pid = ''d'' then named ''Dale Roof Repair'' 5
                            else \<lparr>resp_status = ''NOT_FOUND'', resp_result = empty_details\<rparr>),
      geodesic_miles = meridian_miles\<rparr>"

text \<open>The same provider when the search finds nothing.\<close>

definition quiet_env :: env where
  "quiet_env = town_env\<lparr>search_api := (\<lambda>req. no_results_page)\<rparr>"

text \<open>
  The end-to-end scenario of the specification: the origin is (40, - 75), the search
  returns one place, 2 miles away, whose details hold one review.
\<close>

definition quote_review :: review where
  "quote_review =
     \<lparr>r_text = Some
        ''The roof repair was fast, the crew was professional, and the quote was $8,500.''\<rparr>"

definition quote_place :: place where
  "quote_place = \<lparr>place_id = ''q'', place_lat = 40 + 2 / 69, place_lng = - 75\<rparr>"

definition quote_details :: details where
  "quote_details = empty_details\<lparr>d_reviews := Some [quote_review]\<rparr>"

definition quote_env :: env where
  "quote_env =
     \<lparr>geocode_api = (\<lambda>addr. \<lparr>geo_status = ''OK'', geo_lat = 40, geo_lng = - 75\<rparr>),
      search_api = (\<lambda>req. \<lparr>page_status = ''OK'', page_results = [quote_place],
                            next_page_token = None\<rparr>),
      details_api = (\<lambda>pid. \<lparr>resp_status = ''OK'', resp_result = quote_details\<rparr>),
      geodesic_miles = (\<lambda>a b. 2)\<rparr>"

definition quote_competitors :: "competitor list" where
  "quote_competitors =
     (case analyze_competitors quote_env ''1 Main St'' 5 of
        Some (Inr cs) \<Rightarrow> cs
      | _ \<Rightarrow> [])"

text \<open>A market whose only competitor has no rating yet, and a provider that reports a
  rating of 7.\<close>

definition unrated_env :: env where
  "unrated_env =
     quote_env\<lparr>details_api := (\<lambda>pid. \<lparr>resp_status = ''OK'',
        resp_result = empty_details\<lparr>d_name := Some ''New Roofing Co''\<rparr>\<rparr>)\<rparr>"

definition overrated_env :: env where
  "overrated_env = quote_env\<lparr>details_api := (\<lambda>pid. named ''Seven Stars Roofing'' 7)\<rparr>"

definition town_competitors :: "competitor list" where
  "town_competitors =
     (case analyze_competitors town_env ''1 Main St'' 5 of
        Some (Inr cs) \<Rightarrow> cs
      | _ \<Rightarrow> [])"

definition unrated_competitors :: "competitor list" where
  "unrated_competitors =
     (case analyze_competitors unrated_env ''1 Main St'' 5 of
        Some (Inr cs) \<Rightarrow> cs
      | _ \<Rightarrow> [])"

definition rating_in_range :: "competitor \<Rightarrow> bool" where
  "rating_in_range c = (0 \<le> rating c \<and> rating c \<le> 5)"

text \<open>Reviews that show the order of the sentiment keywords, the double count of a
  theme, and the matching of the pricing patterns review by review.\<close>

definition worst_reviews :: "review list" where
  "worst_reviews =
     [\<lparr>r_text = Some ''The worst roofer. Worst price, worst crew.''\<rparr>,
      \<lparr>r_text = Some ''Poor work, but nobody was rude.''\<rparr>]"


definition split_reviews :: "review list" where
  "split_reviews =
     [\<lparr>r_text = Some ''Their quote''\<rparr>, \<lparr>r_text = Some ''was $500''\<rparr>, \<lparr>r_text = None\<rparr>,
      \<lparr>r_text = Some ''Quote: $500 or $500''\<rparr>]"

text \<open>Markets for the service gaps: a service offered by three competitors of ten, and
  one offered by one of four.\<close>

definition offering :: "string list \<Rightarrow> competitor" where
  "offering servs =
     \<lparr>name = ''Unknown'', address = ''Unknown'', phone = ''Not available'', rating = 0,
      review_count = 0, website = ''Not available'', distance_miles = 1, pricing_info = [],
      services = servs, positive_keywords = [], negative_keywords = [], review_themes = []\<rparr>"

definition three_of_ten :: "competitor list" where
  "three_of_ten = replicate 3 (offering [''Gutter'']) @ replicate 7 (offering [])"

definition one_of_four :: "competitor list" where
  "one_of_four = offering [''Gutter''] # replicate 3 (offering [''Siding''])"


section \<open>Fetching details and building the competitors\<close>






section \<open>The order of the result\<close>

lemma sort_by_distance_sorted: "sorted (map distance_miles (sort_by_distance cs))"
  by (simp add: sort_by_distance_def)

lemma sort_by_distance_stable:
  "filter (\<lambda>c. distance_miles c = d) (sort_by_distance cs)
   = filter (\<lambda>c. distance_miles c = d) cs"
  by (simp add: sort_by_distance_def sort_key_stable)

lemma town_run: "analyze_competitors town_env ''1 Main St'' 5 = Some (Inr town_competitors)"
  by code_simp

lemma town_names:
  "map name town_competitors = [''Dale Roof Repair'', ''Apex Roofing'', ''Crest Gutter Works'']"
  by code_simp

text \<open>
  Claim C8. The list that a run returns is in ascending order of \<open>distance_miles\<close>, and
  the sort is stable: the competitors at any one distance stand in the order in which
  the loop over the places built them.
\<close>

theorem analyze_competitors_sorted_stable:
  assumes "analyze_competitors e addr radius = Some (Inr cs)"
  shows "sorted (map distance_miles cs)
       \<and> (\<exists>origin places.
             geocode_address e addr = Inr origin
           \<and> search_nearby_roofing_companies e (fst origin) (snd origin) radius = Some places
           \<and> (\<forall>d. filter (\<lambda>c. distance_miles c = d) cs
                  = filter (\<lambda>c. distance_miles c = d) (build_competitors e origin places)))"
proof -
  from assms obtain origin where g: "geocode_address e addr = Inr origin"
    by (auto simp: analyze_competitors_def split: sum.splits)
  with assms obtain places where
    s: "search_nearby_roofing_companies e (fst origin) (snd origin) radius = Some places"
    and c: "cs = sort_by_distance (build_competitors e origin places)"
    by (cases origin) (auto simp: analyze_competitors_def split: option.splits)
  show ?thesis
    using g s by (auto simp: c sort_by_distance_sorted sort_by_distance_stable)
qed

theorem analyze_competitors_sorted_stable_witness:
  "analyze_competitors town_env ''1 Main St'' 5 = Some (Inr town_competitors)
   \<and> map name town_competitors = [''Dale Roof Repair'', ''Apex Roofing'', ''Crest Gutter Works'']
   \<and> sorted (map distance_miles town_competitors)"
  using analyze_competitors_sorted_stable [OF town_run] town_run town_names by simp

section \<open>Ratings\<close>

lemma rating_make_competitor:
  "rating (make_competitor e origin pl det) = get_or (d_rating det) 0"
  by (simp add: make_competitor_def Let_def split_beta)

text \<open>
  Claim C9, as the code has it. The rating of a competitor is the value of the key
  \<open>rating\<close> of its detail record, taken over unchanged, and 0 when the record has no
  such key. The program does not check the value against the interval from 0 to 5.
\<close>

theorem rating_is_provider_value:
  "rating (make_competitor e origin pl det) = (case d_rating det of None \<Rightarrow> 0 | Some r \<Rightarrow> r)
   \<and> map rating (build_competitors e origin places)
     = map (\<lambda>pl. case d_rating (get_place_details e (place_id pl)) of None \<Rightarrow> 0 | Some r \<Rightarrow> r)
         (filter (\<lambda>pl. \<not> details_empty (get_place_details e (place_id pl))) places)"
proof -
  have "map rating (build_competitors e origin places)
     = map (\<lambda>pl. get_or (d_rating (get_place_details e (place_id pl))) 0)
         (filter (\<lambda>pl. \<not> details_empty (get_place_details e (place_id pl))) places)"
    by (induction places) (simp_all add: Let_def rating_make_competitor)
  then show ?thesis
    by (simp add: rating_make_competitor get_or_def)
qed

text \<open>
  Claim C9, as stated, fails: from a detail record whose rating is 7 the loop builds a
  competitor whose rating is 7.
\<close>

theorem rating_out_of_range_counterexample:
  "\<not> list_all rating_in_range (build_competitors overrated_env (40, - 75) [place_a])"
  by code_simp

lemma avg_rating_mean:
  "filter (\<lambda>c. 0 < rating c) cs \<noteq> [] \<Longrightarrow>
   avg_rating cs = Inr (sum_list (map rating (filter (\<lambda>c. 0 < rating c) cs))
                        / of_nat (length (filter (\<lambda>c. 0 < rating c) cs)))"
  by (simp add: avg_rating_def Let_def)

lemma avg_rating_error_iff:
  "avg_rating cs = Inl ZeroDivisionError \<longleftrightarrow> filter (\<lambda>c. 0 < rating c) cs = []"
  by (simp add: avg_rating_def Let_def)

text \<open>
  Claim C1 at the input where it fails. A run over a market whose only competitor has
  no rating returns that competitor with the rating 0; no competitor is left with a
  positive rating, and the average rating is a division by zero, which the program
  raises instead of reporting that there is no data.
\<close>

theorem avg_rating_division_by_zero:
  "analyze_competitors unrated_env ''1 Main St'' 5 = Some (Inr unrated_competitors)
   \<and> map rating unrated_competitors = [0]
   \<and> avg_rating unrated_competitors = Inl ZeroDivisionError"
  by code_simp


section \<open>Strings\<close>

lemma startswith_iff: "startswith s sub \<longleftrightarrow> (\<exists>rest. s = sub @ rest)"
  by (induction s sub rule: startswith.induct) auto

lemma contains_iff: "contains s sub \<longleftrightarrow> (\<exists>before rest. s = before @ sub @ rest)"
proof (induction s)
  case Nil
  then show ?case by auto
next
  case (Cons x s)
  show ?case
  proof
    assume "contains (x # s) sub"
    then consider "startswith (x # s) sub" | "contains s sub" by auto
    then show "\<exists>before rest. x # s = before @ sub @ rest"
    proof cases
      case 1
      then obtain rest where "x # s = sub @ rest" by (auto simp: startswith_iff)
      then have "x # s = [] @ sub @ rest" by simp
      then show ?thesis by blast
    next
      case 2
      with Cons obtain before rest where "s = before @ sub @ rest" by auto
      then have "x # s = (x # before) @ sub @ rest" by simp
      then show ?thesis by blast
    qed
  next
    assume "\<exists>before rest. x # s = before @ sub @ rest"
    then obtain before rest where e: "x # s = before @ sub @ rest" by blast
    show "contains (x # s) sub"
    proof (cases before)
      case Nil
      with e have "startswith (x # s) sub" by (auto simp: startswith_iff)
      then show ?thesis by simp
    next
      case (Cons b bs)
      with e have "s = bs @ sub @ rest" by simp
      with Cons.IH have "contains s sub" by blast
      then show ?thesis by simp
    qed
  qed
qed

lemma count_nonempty_pos: "sub \<noteq> [] \<Longrightarrow> 0 < count_nonempty s sub \<longleftrightarrow> contains s sub"
proof (induction s sub rule: count_nonempty.induct)
  case (1 sub)
  then show ?case by simp
next
  case (2 x s sub)
  then show ?case by (cases "startswith (x # s) sub") auto
qed

lemma str_count_pos: "sub \<noteq> [] \<Longrightarrow> 0 < str_count s sub \<longleftrightarrow> contains s sub"
  by (simp add: str_count_def count_nonempty_pos)




section \<open>Sentiment keywords\<close>

lemma distinct_positive: "distinct positive_indicators"
  by (simp add: positive_indicators_def)

lemma distinct_negative: "distinct negative_indicators"
  by (simp add: negative_indicators_def)

lemma kw_positive:
  "fst (analyze_review_keywords revs)
   = filter (\<lambda>k. contains (review_blob revs) k) positive_indicators"
  by (simp add: analyze_review_keywords_def Let_def)

lemma kw_negative:
  "fst (snd (analyze_review_keywords revs))
   = filter (\<lambda>k. contains (review_blob revs) k) negative_indicators"
  by (simp add: analyze_review_keywords_def Let_def)


lemma negative_make_competitor:
  "negative_keywords (make_competitor e origin pl det)
   = fst (snd (analyze_review_keywords (get_or (d_reviews det) [])))"
  by (simp add: make_competitor_def Let_def split_beta)

lemma worst_eval:
  "fst (snd (analyze_review_keywords worst_reviews)) = [''rude'', ''poor'', ''worst'']"
  by code_simp

text \<open>
  Claim C10. The positive and the negative keywords of a list of reviews have no
  duplicates and stand in the order of the indicator vocabularies: each list is a
  subsequence of its vocabulary and holds exactly the indicators that occur in the
  lower-cased text. The column \<open>Top Complaints\<close> joins the first three negative keywords
  of that list. In \<open>worst_reviews\<close> the word worst comes first and three times, and it
  is listed last, after rude and poor.
\<close>

theorem keywords_in_vocabulary_order:
  "distinct (fst (analyze_review_keywords revs))
   \<and> subseq (fst (analyze_review_keywords revs)) positive_indicators
   \<and> set (fst (analyze_review_keywords revs))
     = {k \<in> set positive_indicators. contains (review_blob revs) k}
   \<and> distinct (fst (snd (analyze_review_keywords revs)))
   \<and> subseq (fst (snd (analyze_review_keywords revs))) negative_indicators
   \<and> set (fst (snd (analyze_review_keywords revs)))
     = {k \<in> set negative_indicators. contains (review_blob revs) k}
   \<and> top_complaints (make_competitor e origin pl det)
     = (let found = fst (snd (analyze_review_keywords (get_or (d_reviews det) [])))
        in if found \<noteq> [] then join ''; '' (take 3 found) else ''None'')
   \<and> fst (snd (analyze_review_keywords worst_reviews)) = [''rude'', ''poor'', ''worst'']"
proof -
  have p: "distinct (fst (analyze_review_keywords revs))
     \<and> subseq (fst (analyze_review_keywords revs)) positive_indicators
     \<and> set (fst (analyze_review_keywords revs))
       = {k \<in> set positive_indicators. contains (review_blob revs) k}"
    by (simp add: kw_positive distinct_positive)
  have n: "distinct (fst (snd (analyze_review_keywords revs)))
     \<and> subseq (fst (snd (analyze_review_keywords revs))) negative_indicators
     \<and> set (fst (snd (analyze_review_keywords revs)))
       = {k \<in> set negative_indicators. contains (review_blob revs) k}"
    by (simp add: kw_negative distinct_negative)
  have t: "top_complaints (make_competitor e origin pl det)
     = (let found = fst (snd (analyze_review_keywords (get_or (d_reviews det) [])))
        in if found \<noteq> [] then join ''; '' (take 3 found) else ''None'')"
    by (simp add: top_complaints_def negative_make_competitor Let_def)
  from p n t worst_eval show ?thesis by blast
qed

section \<open>Review themes\<close>










section \<open>Pricing mentions\<close>

lemma first_seen_after_cong:
  "set seen = set seen' \<Longrightarrow> first_seen_after seen xs = first_seen_after seen' xs"
proof (induction xs arbitrary: seen seen')
  case Nil
  then show ?case by simp
next
  case (Cons x xs)
  from Cons.prems have "set (x # seen) = set (x # seen')" by simp
  then have "first_seen_after (x # seen) xs = first_seen_after (x # seen') xs"
    by (rule Cons.IH)
  moreover have "first_seen_after seen xs = first_seen_after seen' xs"
    using Cons.prems by (rule Cons.IH)
  ultimately show ?case using Cons.prems by simp
qed

lemma set_first_seen_after: "set (first_seen_after seen xs) = set xs - set seen"
  by (induction xs arbitrary: seen) auto

lemma distinct_first_seen_after: "distinct (first_seen_after seen xs)"
  by (induction xs arbitrary: seen) (auto simp: set_first_seen_after)

lemma first_seen_after_append:
  "first_seen_after seen (xs @ ys)
   = first_seen_after seen xs @ first_seen_after (seen @ xs) ys"
proof (induction xs arbitrary: seen)
  case Nil
  then show ?case by simp
next
  case (Cons x xs)
  show ?case
  proof (cases "x \<in> set seen")
    case True
    then have "set (seen @ x # xs) = set (seen @ xs)" by auto
    then have "first_seen_after (seen @ x # xs) ys = first_seen_after (seen @ xs) ys"
      by (rule first_seen_after_cong)
    with True Cons.IH [of seen] show ?thesis by simp
  next
    case False
    have "set (seen @ x # xs) = set ((x # seen) @ xs)" by auto
    then have "first_seen_after (seen @ x # xs) ys = first_seen_after ((x # seen) @ xs) ys"
      by (rule first_seen_after_cong)
    with False Cons.IH [of "x # seen"] show ?thesis by simp
  qed
qed

lemma first_seen_after_all_seen: "set xs \<subseteq> set seen \<Longrightarrow> first_seen_after seen xs = []"
  by (induction xs) auto

lemma add_matches_first_seen:
  "add_matches pricing ms = pricing @ first_seen_after pricing ms"
proof (induction ms arbitrary: pricing)
  case Nil
  then show ?case by simp
next
  case (Cons m ms)
  show ?case
  proof (cases "m \<in> set pricing")
    case True
    with Cons.IH [of pricing] show ?thesis by simp
  next
    case False
    have "set (pricing @ [m]) = set (m # pricing)" by auto
    then have "first_seen_after (pricing @ [m]) ms = first_seen_after (m # pricing) ms"
      by (rule first_seen_after_cong)
    with False Cons.IH [of "pricing @ [m]"] show ?thesis by simp
  qed
qed

lemma scan_patterns_first_seen:
  "scan_patterns pricing txt ps
   = pricing @ first_seen_after pricing (concat (map (\<lambda>p. findall p txt) ps))"
proof (induction ps arbitrary: pricing)
  case Nil
  then show ?case by simp
next
  case (Cons p ps)
  let ?m = "findall p txt"
  have "set (pricing @ first_seen_after pricing ?m) = set (pricing @ ?m)"
    by (auto simp: set_first_seen_after)
  then have "first_seen_after (pricing @ first_seen_after pricing ?m)
               (concat (map (\<lambda>p. findall p txt) ps))
           = first_seen_after (pricing @ ?m) (concat (map (\<lambda>p. findall p txt) ps))"
    by (rule first_seen_after_cong)
  then show ?case
    by (simp add: Cons.IH add_matches_first_seen first_seen_after_append)
qed

lemma scan_reviews_first_seen:
  "scan_reviews pricing revs = pricing @ first_seen_after pricing (all_matches revs)"
proof (induction revs arbitrary: pricing)
  case Nil
  then show ?case by (simp add: all_matches_def)
next
  case (Cons r revs)
  let ?m = "concat (map (\<lambda>p. findall p (lower (get_or (r_text r) []))) price_patterns)"
  have "set (pricing @ first_seen_after pricing ?m) = set (pricing @ ?m)"
    by (auto simp: set_first_seen_after)
  then have "first_seen_after (pricing @ first_seen_after pricing ?m) (all_matches revs)
           = first_seen_after (pricing @ ?m) (all_matches revs)"
    by (rule first_seen_after_cong)
  moreover have "all_matches (r # revs) = ?m @ all_matches revs"
    by (simp add: all_matches_def)
  ultimately show ?case
    by (simp add: Cons.IH scan_patterns_first_seen first_seen_after_append)
qed

lemma extract_pricing_first_seen:
  "extract_pricing_from_reviews revs = spec_first_seen (all_matches revs)"
  by (simp add: extract_pricing_from_reviews_def spec_first_seen_def scan_reviews_first_seen)

lemma scan_again:
  "scan_reviews (extract_pricing_from_reviews revs) revs = extract_pricing_from_reviews revs"
proof -
  have "set (all_matches revs) \<subseteq> set (extract_pricing_from_reviews revs)"
    by (simp add: extract_pricing_first_seen spec_first_seen_def set_first_seen_after)
  then show ?thesis
    by (simp add: scan_reviews_first_seen first_seen_after_all_seen)
qed

lemma all_matches_append: "all_matches (xs @ ys) = all_matches xs @ all_matches ys"
  by (simp add: all_matches_def)

lemma extract_twice:
  "extract_pricing_from_reviews (revs @ revs) = extract_pricing_from_reviews revs"
  by (simp add: extract_pricing_first_seen spec_first_seen_def all_matches_append
      first_seen_after_append first_seen_after_all_seen)

lemma split_eval:
  "extract_pricing_from_reviews split_reviews = [''$500'', ''quote: $500 or $500'']"
  by code_simp

text \<open>
  Claim C7. The pricing mentions of a list of reviews are the matches of all patterns
  in every single review, in the order of the loops, each kept where it is seen first:
  the list has no duplicates. Extraction is idempotent: running the loops a second time
  over the same reviews, on top of the list already extracted, adds nothing, and so does
  extracting from the reviews listed twice. In \<open>split_reviews\<close> the words quote and
  $500 of two neighbouring reviews do not form a match, and the amount $500, matched
  three times, is listed once.
\<close>

theorem extract_pricing_first_seen_idempotent:
  "extract_pricing_from_reviews revs = spec_first_seen (all_matches revs)
   \<and> distinct (extract_pricing_from_reviews revs)
   \<and> set (extract_pricing_from_reviews revs) = set (all_matches revs)
   \<and> scan_reviews (extract_pricing_from_reviews revs) revs = extract_pricing_from_reviews revs
   \<and> extract_pricing_from_reviews (revs @ revs) = extract_pricing_from_reviews revs
   \<and> extract_pricing_from_reviews split_reviews = [''$500'', ''quote: $500 or $500'']"
proof -
  have d: "distinct (extract_pricing_from_reviews revs)"
    by (simp add: extract_pricing_first_seen spec_first_seen_def distinct_first_seen_after)
  have s: "set (extract_pricing_from_reviews revs) = set (all_matches revs)"
    by (simp add: extract_pricing_first_seen spec_first_seen_def set_first_seen_after)
  from extract_pricing_first_seen [of revs] d s scan_again [of revs] extract_twice [of revs]
    split_eval
  show ?thesis by blast
qed

section \<open>The paginated search\<close>

lemma paginate_served:
  "served fetch (next_page_token data) pages \<Longrightarrow> next_page_token data \<noteq> None \<Longrightarrow>
   paginate fetch data acc
   = Some (acc @ concat (map page_results (takeWhile (\<lambda>p. page_status p = ''OK'') pages)))"
proof (induction pages arbitrary: data acc)
  case Nil
  then show ?case by simp
next
  case (Cons p pages)
  from Cons.prems obtain token where t: "next_page_token data = Some token" by auto
  show ?case
  proof (cases pages)
    case Nil
    with Cons.prems t have f: "fetch (Some token) = p"
      and e: "page_status p \<noteq> ''OK'' \<or> next_page_token p = None" by auto
    show ?thesis
    proof (cases "page_status p = ''OK''")
      case True
      with e have "next_page_token p = None" by simp
      then have "paginate fetch p (acc @ page_results p) = Some (acc @ page_results p)"
        by (subst paginate.simps) simp
      with True t f Nil show ?thesis
        by (subst paginate.simps) simp
    next
      case False
      with t f Nil show ?thesis
        by (subst paginate.simps) simp
    qed
  next
    case (Cons q rest)
    with Cons.prems t have f: "fetch (Some token) = p" and ok: "page_status p = ''OK''"
      and n: "next_page_token p \<noteq> None" and s: "served fetch (next_page_token p) pages"
      by auto
    from Cons.IH [OF s n, of "acc @ page_results p"] t f ok show ?thesis
      by (subst paginate.simps) simp
  qed
qed

lemma town_served:
  "served (search_request town_env 40 (- 75) 5) None [page_one, page_two, page_three]"
  by code_simp

lemma quiet_served: "served (search_request quiet_env 40 (- 75) 5) None [no_results_page]"
  by (simp add: quiet_env_def search_request_def no_results_page_def)

text \<open>
  Claim C3. Let \<open>pages\<close> be the responses of the provider to the successive page
  requests of a search, up to the one at which the pagination ends. The search returns,
  without an error, the results of the longest prefix of successful pages: all of them
  when the last page is successful and has no token, and those before the last page when
  that page has another status than \<open>OK\<close>. A search whose first page is not successful
  returns the empty list.
\<close>

theorem search_returns_successful_prefix:
  assumes "served (search_request e lat lng radius) None pages"
  shows "search_nearby_roofing_companies e lat lng radius
         = Some (concat (map page_results (takeWhile (\<lambda>p. page_status p = ''OK'') pages)))
       \<and> (page_status (search_request e lat lng radius None) \<noteq> ''OK''
            \<longrightarrow> search_nearby_roofing_companies e lat lng radius = Some [])"
proof -
  let ?fetch = "search_request e lat lng radius"
  from assms obtain p rest where pg: "pages = p # rest" by (cases pages) auto
  have main: "search_pages ?fetch
      = Some (concat (map page_results (takeWhile (\<lambda>p. page_status p = ''OK'') pages)))"
  proof (cases rest)
    case Nil
    with assms pg have f: "?fetch None = p"
      and e: "page_status p \<noteq> ''OK'' \<or> next_page_token p = None" by auto
    show ?thesis
    proof (cases "page_status p = ''OK''")
      case True
      with e have "next_page_token p = None" by simp
      then have "paginate ?fetch p (page_results p) = Some (page_results p)"
        by (subst paginate.simps) simp
      with True f pg Nil show ?thesis by (simp add: search_pages_def)
    next
      case False
      with f pg Nil show ?thesis by (simp add: search_pages_def)
    qed
  next
    case (Cons q rest')
    with assms pg have f: "?fetch None = p" and ok: "page_status p = ''OK''"
      and n: "next_page_token p \<noteq> None" and s: "served ?fetch (next_page_token p) rest"
      by auto
    from paginate_served [OF s n, of "page_results p"] f ok pg show ?thesis
      by (simp add: search_pages_def)
  qed
  have "page_status (?fetch None) \<noteq> ''OK'' \<longrightarrow> search_pages ?fetch = Some []"
    by (simp add: search_pages_def)
  with main show ?thesis by (simp add: search_nearby_roofing_companies_def)
qed

theorem search_returns_successful_prefix_witness:
  "served (search_request town_env 40 (- 75) 5) None [page_one, page_two, page_three]
   \<and> search_nearby_roofing_companies town_env 40 (- 75) 5
     = Some [place_a, place_b, place_c, place_d]
   \<and> served (search_request quiet_env 40 (- 75) 5) None [no_results_page]
   \<and> page_status (search_request quiet_env 40 (- 75) 5 None) \<noteq> ''OK''
   \<and> search_nearby_roofing_companies quiet_env 40 (- 75) 5 = Some []"
proof -
  have "concat (map page_results
          (takeWhile (\<lambda>p. page_status p = ''OK'') [page_one, page_two, page_three]))
        = [place_a, place_b, place_c, place_d]"
    by (simp add: page_one_def page_two_def page_three_def)
  with search_returns_successful_prefix [OF town_served] town_served
  have town: "served (search_request town_env 40 (- 75) 5) None [page_one, page_two, page_three]
      \<and> search_nearby_roofing_companies town_env 40 (- 75) 5
        = Some [place_a, place_b, place_c, place_d]"
    by simp
  have q: "page_status (search_request quiet_env 40 (- 75) 5 None) \<noteq> ''OK''"
    by (simp add: quiet_env_def search_request_def no_results_page_def)
  from search_returns_successful_prefix [OF quiet_served] q
  have "search_nearby_roofing_companies quiet_env 40 (- 75) 5 = Some []" by blast
  with town quiet_served q show ?thesis by blast
qed

text \<open>
  A provider that answers every request with a successful page and one more token keeps
  the loop running for ever: the search does not return.
\<close>

lemma paginate_endless:
  assumes "\<And>req. page_status (fetch req) = ''OK'' \<and> next_page_token (fetch req) \<noteq> None"
  shows "next_page_token data \<noteq> None \<Longrightarrow> paginate fetch data acc = None"
proof -
  have "f = fetch \<longrightarrow> next_page_token d \<noteq> None \<longrightarrow> False"
    if "paginate f d a = Some y" for f d a y
  proof (rule paginate.raw_induct
      [where P = "\<lambda>f d a y. f = fetch \<longrightarrow> next_page_token d \<noteq> None \<longrightarrow> False", OF _ that])
    fix pg f' d' a' y'
    assume ih: "\<And>f d a y. pg f d a = Some y \<Longrightarrow>
        f = fetch \<longrightarrow> next_page_token d \<noteq> None \<longrightarrow> False"
      and body: "(case next_page_token d' of
          None \<Rightarrow> Some a'
        | Some token \<Rightarrow>
            let data' = f' (Some token)
            in if page_status data' = ''OK''
               then pg f' data' (a' @ page_results data') else Some a') = Some y'"
    show "f' = fetch \<longrightarrow> next_page_token d' \<noteq> None \<longrightarrow> False"
    proof (intro impI)
      assume f: "f' = fetch" and n: "next_page_token d' \<noteq> None"
      then obtain token where t: "next_page_token d' = Some token" by auto
      from assms have ok: "page_status (fetch (Some token)) = ''OK''"
        and nx: "next_page_token (fetch (Some token)) \<noteq> None" by auto
      from body t f ok
      have "pg fetch (fetch (Some token)) (a' @ page_results (fetch (Some token))) = Some y'"
        by (simp add: Let_def)
      from ih [OF this] nx show False by simp
    qed
  qed
  then show "next_page_token data \<noteq> None \<Longrightarrow> paginate fetch data acc = None"
    by (cases "paginate fetch data acc") auto
qed

lemma search_pages_endless:
  assumes "\<And>req. page_status (fetch req) = ''OK'' \<and> next_page_token (fetch req) \<noteq> None"
  shows "search_pages fetch = None"
  using assms paginate_endless [of fetch "fetch None", OF assms]
  by (simp add: search_pages_def)


section \<open>The end-to-end scenario\<close>

lemma quote_pricing:
  "extract_pricing_from_reviews [quote_review] = [''$8,500'', ''quote was $8,500'']"
  by code_simp

lemma quote_keywords:
  "analyze_review_keywords [quote_review]
   = ([''professional''], [], [(''speed'', 1), (''quality'', 1)])"
  by code_simp

lemma round2_two: "round2 2 = 2"
  by code_simp

lemma paginate_no_token:
  "next_page_token data = None \<Longrightarrow> paginate fetch data acc = Some acc"
  by (subst paginate.simps) simp

lemma quote_run:
  assumes "geocode_api e addr = \<lparr>geo_status = ''OK'', geo_lat = 40, geo_lng = - 75\<rparr>"
    and "search_request e 40 (- 75) radius None
         = \<lparr>page_status = ''OK'', page_results = [pl], next_page_token = None\<rparr>"
    and "details_api e (place_id pl) = \<lparr>resp_status = ''OK'', resp_result = det\<rparr>"
    and "d_reviews det = Some [quote_review]"
    and "geodesic_miles e (40, - 75) (place_lat pl, place_lng pl) = 2"
  shows "analyze_competitors e addr radius = Some (Inr [make_competitor e (40, - 75) pl det])"
    and "distance_miles (make_competitor e (40, - 75) pl det) = 2"
    and "pricing_info (make_competitor e (40, - 75) pl det) = [''$8,500'', ''quote was $8,500'']"
    and "positive_keywords (make_competitor e (40, - 75) pl det) = [''professional'']"
    and "negative_keywords (make_competitor e (40, - 75) pl det) = []"
    and "review_themes (make_competitor e (40, - 75) pl det) = [(''speed'', 1), (''quality'', 1)]"
proof -
  let ?c = "make_competitor e (40, - 75) pl det"
  have g: "geocode_address e addr = Inr (40, - 75)"
    by (simp add: geocode_address_def assms(1))
  have s: "search_nearby_roofing_companies e 40 (- 75) radius = Some [pl]"
    by (simp add: search_nearby_roofing_companies_def search_pages_def assms(2)
        paginate_no_token)
  have d: "get_place_details e (place_id pl) = det"
    by (simp add: get_place_details_def assms(3))
  have ne: "\<not> details_empty det"
    by (simp add: details_empty_def assms(4))
  have "build_competitors e (40, - 75) [pl] = [?c]"
    by (simp add: d ne)
  then have b: "sort_by_distance (build_competitors e (40, - 75) [pl]) = [?c]"
    by (simp only: sort_by_distance_def sort_key_simps insort_key.simps)
  show "analyze_competitors e addr radius = Some (Inr [?c])"
    by (simp add: analyze_competitors_def g s b del: build_competitors.simps)
  show "distance_miles ?c = 2"
    by (simp add: make_competitor_def Let_def split_beta assms(5) round2_two)
  show "pricing_info ?c = [''$8,500'', ''quote was $8,500'']"
    by (simp add: make_competitor_def Let_def split_beta get_or_def assms(4) quote_pricing)
  show "positive_keywords ?c = [''professional'']"
    by (simp add: make_competitor_def Let_def split_beta get_or_def assms(4) quote_keywords)
  show "negative_keywords ?c = []"
    by (simp add: make_competitor_def Let_def split_beta get_or_def assms(4) quote_keywords)
  show "review_themes ?c = [(''speed'', 1), (''quality'', 1)]"
    by (simp add: make_competitor_def Let_def split_beta get_or_def assms(4) quote_keywords)
qed

lemma quote_env_geocode:
  "geocode_api quote_env ''1 Main St'' = \<lparr>geo_status = ''OK'', geo_lat = 40, geo_lng = - 75\<rparr>"
  by (simp add: quote_env_def)

lemma quote_env_search:
  "search_request quote_env 40 (- 75) 5 None
   = \<lparr>page_status = ''OK'', page_results = [quote_place], next_page_token = None\<rparr>"
  by (simp add: quote_env_def search_request_def quote_place_def)

lemma quote_env_details:
  "details_api quote_env (place_id quote_place)
   = \<lparr>resp_status = ''OK'', resp_result = quote_details\<rparr>"
  by (simp add: quote_env_def quote_details_def)

lemma quote_details_reviews: "d_reviews quote_details = Some [quote_review]"
  by (simp add: quote_details_def)

lemma quote_env_distance:
  "geodesic_miles quote_env (40, - 75) (place_lat quote_place, place_lng quote_place) = 2"
  by (simp add: quote_env_def)

lemmas quote_env_facts =
  quote_env_geocode quote_env_search quote_env_details quote_details_reviews quote_env_distance

lemma quote_competitors_eq:
  "quote_competitors = [make_competitor quote_env (40, - 75) quote_place quote_details]"
  by (simp add: quote_competitors_def quote_run(1) [OF quote_env_facts])

text \<open>
  Claim C2, as the code has it. When the origin geocodes to (40, - 75), the search returns
  one place 2 miles away, and its details hold the one review with the quote of $8,500,
  the run returns one competitor with the distance 2, the pricing mentions \<open>$8,500\<close> and
  \<open>quote was $8,500\<close> (the amount pattern and the quote pattern both match), the
  positive keyword professional, and the themes speed and quality, each counted once.
  The theme estimate is absent: none of its trigger phrases occurs in the review.
\<close>

theorem quote_scenario:
  assumes "geocode_api e addr = \<lparr>geo_status = ''OK'', geo_lat = 40, geo_lng = - 75\<rparr>"
    and "search_request e 40 (- 75) radius None
         = \<lparr>page_status = ''OK'', page_results = [pl], next_page_token = None\<rparr>"
    and "details_api e (place_id pl) = \<lparr>resp_status = ''OK'', resp_result = det\<rparr>"
    and "d_reviews det = Some [quote_review]"
    and "geodesic_miles e (40, - 75) (place_lat pl, place_lng pl) = 2"
  shows "\<exists>c. analyze_competitors e addr radius = Some (Inr [c])
           \<and> distance_miles c = 2
           \<and> pricing_info c = [''$8,500'', ''quote was $8,500'']
           \<and> positive_keywords c = [''professional'']
           \<and> negative_keywords c = []
           \<and> review_themes c = [(''speed'', 1), (''quality'', 1)]
           \<and> map_of (review_themes c) ''estimate'' = None"
  using quote_run [OF assms] by simp

theorem quote_scenario_witness:
  "geocode_api quote_env ''1 Main St'' = \<lparr>geo_status = ''OK'', geo_lat = 40, geo_lng = - 75\<rparr>
   \<and> d_reviews quote_details = Some [quote_review]
   \<and> (\<exists>c. analyze_competitors quote_env ''1 Main St'' 5 = Some (Inr [c])
           \<and> distance_miles c = 2
           \<and> pricing_info c = [''$8,500'', ''quote was $8,500'']
           \<and> positive_keywords c = [''professional'']
           \<and> review_themes c = [(''speed'', 1), (''quality'', 1)])"
  using quote_scenario [OF quote_env_facts] quote_env_geocode quote_details_reviews by blast

text \<open>
  Claim C2, as stated, fails on that run: the pricing mentions are not the one-element
  list, and the themes do not contain estimate.
\<close>

theorem quote_scenario_counterexample:
  "\<not> (map distance_miles quote_competitors = [2]
      \<and> map pricing_info quote_competitors = [[''$8,500'']]
      \<and> ''professional'' \<in> set (concat (map positive_keywords quote_competitors))
      \<and> ''speed'' \<in> fst ` set (concat (map review_themes quote_competitors))
      \<and> ''estimate'' \<in> fst ` set (concat (map review_themes quote_competitors)))"
  by (simp add: quote_competitors_eq quote_run(3) [OF quote_env_facts])


section \<open>Rounding to double precision\<close>

lemma rhe_cases:
  "round_half_even x = \<lfloor>x\<rfloor> \<or> round_half_even x = \<lfloor>x\<rfloor> + 1"
  by (simp add: round_half_even_def Let_def)

lemma rhe_of_int: "round_half_even (of_int n) = n"
  by (simp add: round_half_even_def Let_def)

lemma rhe_mono: "x \<le> y \<Longrightarrow> round_half_even x \<le> round_half_even y"
proof -
  assume xy: "x \<le> y"
  then have f: "\<lfloor>x\<rfloor> \<le> \<lfloor>y\<rfloor>" by (rule floor_mono)
  show ?thesis
  proof (cases "\<lfloor>x\<rfloor> = \<lfloor>y\<rfloor>")
    case True
    with xy have "x - of_int \<lfloor>x\<rfloor> \<le> y - of_int \<lfloor>y\<rfloor>" by simp
    with True show ?thesis by (auto simp: round_half_even_def Let_def)
  next
    case False
    with f have "\<lfloor>x\<rfloor> + 1 \<le> \<lfloor>y\<rfloor>" by simp
    moreover have "round_half_even x \<le> \<lfloor>x\<rfloor> + 1" using rhe_cases [of x] by auto
    moreover have "\<lfloor>y\<rfloor> \<le> round_half_even y" using rhe_cases [of y] by auto
    ultimately show ?thesis by linarith
  qed
qed

lemma rhe_ge: "of_int n \<le> x \<Longrightarrow> n \<le> round_half_even x"
  using rhe_mono [of "of_int n" x] by (simp add: rhe_of_int)

lemma rhe_le: "x \<le> of_int n \<Longrightarrow> round_half_even x \<le> n"
  using rhe_mono [of x "of_int n"] by (simp add: rhe_of_int)

lemma bitlen_powi:
  fixes a :: int
  assumes "0 < a"
  shows "(2::rat) powi (bitlen a - 1) \<le> of_int a \<and> of_int a < (2::rat) powi (bitlen a)"
proof -
  from bitlen_bounds [OF assms]
  have b1: "2 ^ nat (bitlen a - 1) \<le> a" and b2: "a < 2 ^ nat (bitlen a)" by auto
  have ge1: "1 \<le> bitlen a"
    using assms bitlen_eq_zero_iff [of a] bitlen_nonneg [of a] by linarith
  from b1 have "(of_int (2 ^ nat (bitlen a - 1)) :: rat) \<le> of_int a"
    by (simp only: of_int_le_iff)
  moreover from b2 have "(of_int a :: rat) < of_int (2 ^ nat (bitlen a))"
    by (simp only: of_int_less_iff)
  ultimately show ?thesis using ge1 by (simp add: power_int_nonneg_exp)
qed

lemma two_powi_pos: "0 < (2::rat) powi k"
  by (simp add: power_int_def)

lemma floor_log2_bounds:
  assumes "0 < x"
  shows "2 powi (floor_log2 x) \<le> x \<and> x < 2 powi (floor_log2 x + 1)"
proof -
  obtain a b where q: "quotient_of x = (a, b)" by force
  then have b: "0 < b" by (rule quotient_of_denom_pos)
  from q have x: "x = of_int a / of_int b" by (rule quotient_of_div)
  from assms x b have a: "0 < a" by (simp add: zero_less_divide_iff)
  let ?la = "bitlen a" and ?lb = "bitlen b"
  note A = bitlen_powi [OF a] and B = bitlen_powi [OF b]
  have bpos: "(0::rat) < of_int b" using b by simp
  have "x < 2 powi ?la / of_int b"
    unfolding x using A bpos by (simp add: divide_strict_right_mono)
  also have "\<dots> \<le> 2 powi ?la / 2 powi (?lb - 1)"
    using B two_powi_pos [of "?lb - 1"] two_powi_pos [of ?la] bpos
    by (intro divide_left_mono mult_pos_pos) auto
  also have "\<dots> = 2 powi (?la - (?lb - 1))"
    by (rule power_int_diff [symmetric]) simp
  also have "?la - (?lb - 1) = ?la - ?lb + 1" by simp
  finally have up: "x < 2 powi (?la - ?lb + 1)" .
  have "?la - ?lb - 1 = ?la - 1 - ?lb" by simp
  then have "(2::rat) powi (?la - ?lb - 1) = 2 powi (?la - 1 - ?lb)" by (simp only:)
  also have "\<dots> = 2 powi (?la - 1) / 2 powi ?lb"
    by (rule power_int_diff) simp
  also have "\<dots> \<le> of_int a / 2 powi ?lb"
    using A two_powi_pos [of ?lb] by (simp add: divide_right_mono)
  also have "\<dots> \<le> of_int a / of_int b"
    using B a bpos two_powi_pos [of ?lb] by (intro divide_left_mono mult_pos_pos) auto
  finally have lo: "2 powi (?la - ?lb - 1) \<le> x" by (simp add: x)
  show ?thesis
  proof (cases "2 powi (?la - ?lb) \<le> x")
    case True
    with up show ?thesis by (simp add: floor_log2_def q)
  next
    case False
    with lo show ?thesis by (simp add: floor_log2_def q)
  qed
qed

lemma floor_log2_less: "0 < x \<Longrightarrow> x < 2 powi k \<Longrightarrow> floor_log2 x < k"
proof -
  assume "0 < x" "x < 2 powi k"
  with floor_log2_bounds [of x] have "(2::rat) powi floor_log2 x < 2 powi k" by linarith
  then show ?thesis
    by (metis not_less power_int_increasing one_le_numeral)
qed

lemma floor_log2_ge: "0 < x \<Longrightarrow> 2 powi k \<le> x \<Longrightarrow> k \<le> floor_log2 x"
proof -
  assume "0 < x" "2 powi k \<le> x"
  with floor_log2_bounds [of x] have "(2::rat) powi k < 2 powi (floor_log2 x + 1)" by linarith
  then have "k < floor_log2 x + 1"
    by (metis not_less power_int_increasing one_le_numeral)
  then show ?thesis by simp
qed

lemma to_double_pos:
  "0 < x \<Longrightarrow>
   to_double x = of_int (round_half_even (x / 2 powi (floor_log2 x - 52))) * 2 powi (floor_log2 x - 52)"
  by (simp add: to_double_def Let_def)

lemma unit_eq: "(2::rat) powi (e - 52) = 2 powi e / 2 ^ 52"
  by (simp add: power_int_diff)

lemma to_double_range:
  assumes "0 < x"
  shows "2 powi (floor_log2 x) \<le> to_double x \<and> to_double x \<le> 2 powi (floor_log2 x + 1)"
proof -
  let ?e = "floor_log2 x"
  let ?u = "(2::rat) powi (?e - 52)"
  let ?m = "x / ?u"
  have u: "0 < ?u" by (rule two_powi_pos)
  have p: "(0::rat) < 2 powi ?e" by (rule two_powi_pos)
  have e1: "(2::rat) powi (?e + 1) = 2 * 2 powi ?e" by (simp add: power_int_add)
  from floor_log2_bounds [OF assms] have lo: "2 powi ?e \<le> x" and "x < 2 powi (?e + 1)" by auto
  then have hi: "x < 2 * 2 powi ?e" by (simp only: e1)
  have "of_int (2 ^ 52) \<le> ?m"
    using lo p by (simp add: unit_eq field_simps)
  then have m1: "2 ^ 52 \<le> round_half_even ?m" by (rule rhe_ge)
  have "?m \<le> of_int (2 ^ 53)"
    using hi p by (simp add: unit_eq field_simps)
  then have m2: "round_half_even ?m \<le> 2 ^ 53" by (rule rhe_le)
  from m1 have "(of_int (2 ^ 52) :: rat) \<le> of_int (round_half_even ?m)" by (simp only: of_int_le_iff)
  then have "of_int (2 ^ 52) * ?u \<le> of_int (round_half_even ?m) * ?u"
    using u by (simp only: mult_le_cancel_right_pos)
  then have r1: "2 powi ?e \<le> to_double x"
    by (simp add: to_double_pos [OF assms] unit_eq)
  from m2 have "(of_int (round_half_even ?m) :: rat) \<le> of_int (2 ^ 53)" by (simp only: of_int_le_iff)
  then have "of_int (round_half_even ?m) * ?u \<le> of_int (2 ^ 53) * ?u"
    using u by (simp only: mult_le_cancel_right_pos)
  then have r2: "to_double x \<le> 2 powi (?e + 1)"
    by (simp add: to_double_pos [OF assms] unit_eq e1)
  from r1 r2 show ?thesis ..
qed

lemma double_three_tenths: "to_double (3 / 10) = 5404319552844595 / 2 ^ 54"
  by code_simp


section \<open>Service gaps\<close>

lemma is_gap_iff:
  assumes c: "0 < c" and t: "0 < t" and bound: "t < 2 ^ 51"
  shows "is_gap c t \<longleftrightarrow> 10 * c < 3 * t"
proof -
  let ?x = "(of_nat c / of_nat t :: rat)"
  let ?e = "floor_log2 ?x"
  let ?D = "5404319552844595 :: int"
  have x: "0 < ?x" using c t by simp
  have tpos: "(0::rat) < of_nat t" using t by simp
  note rng = to_double_range [OF x]
  show ?thesis
  proof
    assume "10 * c < 3 * t"
    then have "10 * c + 1 \<le> 3 * t" by simp
    then have "(of_nat (10 * c + 1) :: rat) \<le> of_nat (3 * t)" by (simp only: of_nat_le_iff)
    then have le: "10 * (of_nat c :: rat) + 1 \<le> 3 * of_nat t" by simp
    then have xle: "?x \<le> 3 / 10 - 1 / (10 * of_nat t)"
      using tpos by (simp add: field_simps)
    from bound have "(of_nat t :: rat) < of_nat (2 ^ 51)" by (simp only: of_nat_less_iff)
    then have tb: "(of_nat t :: rat) < 2 ^ 51" by simp
    have inv: "1 / (10 * 2 ^ 51) < 1 / (10 * (of_nat t :: rat))"
      using tb tpos by (simp add: field_simps)
    from xle inv have xlt: "?x < 3 / 10 - 1 / (10 * 2 ^ 51)" by linarith
    have half: "(2::rat) powi (- 1) = 1 / 2" by (simp add: power_int_minus)
    have "3 / 10 - 1 / (10 * 2 ^ 51) < (1 / 2 :: rat)" by simp
    with xlt have "?x < 1 / 2" by (rule less_trans)
    then have "?x < 2 powi (- 1)" by (simp only: half)
    with x have "?e < - 1" by (rule floor_log2_less)
    then consider "?e \<le> - 3" | "?e = - 2" by linarith
    then have "to_double ?x < of_int ?D / 2 ^ 54"
    proof cases
      case 1
      then have "?e + 1 \<le> - 2" by simp
      then have "(2::rat) powi (?e + 1) \<le> 2 powi (- 2)" by (intro power_int_increasing) auto
      with rng have "to_double ?x \<le> 2 powi (- 2)" by linarith
      then show ?thesis by (simp add: power_int_minus)
    next
      case 2
      have u: "(2::rat) powi (?e - 52) = 1 / 2 ^ 54" by (simp add: 2 power_int_minus field_simps)
      have "?x * 2 ^ 54 < (3 / 10 - 1 / (10 * 2 ^ 51)) * 2 ^ 54"
        using xlt by (simp only: mult_less_cancel_right_pos zero_less_power zero_less_numeral)
      then have "?x * 2 ^ 54 \<le> of_int ?D - 6 / 10" by simp
      then have "round_half_even (?x * 2 ^ 54) \<le> round_half_even (of_int ?D - 6 / 10)"
        by (rule rhe_mono)
      also have "round_half_even (of_int ?D - 6 / 10) = ?D - 1" by code_simp
      finally have "round_half_even (?x * 2 ^ 54) \<le> ?D - 1" .
      then have "(of_int (round_half_even (?x * 2 ^ 54)) :: rat) \<le> of_int (?D - 1)"
        by (simp only: of_int_le_iff)
      then have "to_double ?x \<le> of_int (?D - 1) / 2 ^ 54"
        by (simp add: to_double_pos [OF x] u field_simps)
      then show ?thesis by simp
    qed
    then show "is_gap c t" by (simp add: is_gap_def double_three_tenths)
  next
    assume g: "is_gap c t"
    show "10 * c < 3 * t"
    proof (rule ccontr)
      assume "\<not> 10 * c < 3 * t"
      then have "3 * t \<le> 10 * c" by simp
      then have "(of_nat (3 * t) :: rat) \<le> of_nat (10 * c)" by (simp only: of_nat_le_iff)
      then have "3 * (of_nat t :: rat) \<le> 10 * of_nat c" by simp
      then have xge: "3 / 10 \<le> ?x" using tpos by (simp add: field_simps)
      have quarter: "(2::rat) powi (- 2) = 1 / 4" by (simp add: power_int_minus)
      have "(1 / 4 :: rat) \<le> 3 / 10" by simp
      from this xge have "1 / 4 \<le> ?x" by (rule order_trans)
      then have "2 powi (- 2) \<le> ?x" by (simp only: quarter)
      with x have "- 2 \<le> ?e" by (rule floor_log2_ge)
      then consider "- 1 \<le> ?e" | "?e = - 2" by linarith
      then have "of_int ?D / 2 ^ 54 \<le> to_double ?x"
      proof cases
        case 1
        then have "(2::rat) powi (- 1) \<le> 2 powi ?e" by (intro power_int_increasing) auto
        with rng have "2 powi (- 1) \<le> to_double ?x" by linarith
        then show ?thesis by (simp add: power_int_minus)
      next
        case 2
        have u: "(2::rat) powi (?e - 52) = 1 / 2 ^ 54" by (simp add: 2 power_int_minus field_simps)
        have "3 / 10 * 2 ^ 54 \<le> ?x * 2 ^ 54"
          using xge by (simp only: mult_le_cancel_right_pos zero_less_power zero_less_numeral)
        then have "of_int ?D \<le> ?x * 2 ^ 54" by simp
        then have "?D \<le> round_half_even (?x * 2 ^ 54)" by (rule rhe_ge)
        then have "(of_int ?D :: rat) \<le> of_int (round_half_even (?x * 2 ^ 54))"
          by (simp only: of_int_le_iff)
        then show ?thesis
          by (simp add: to_double_pos [OF x] u field_simps)
      qed
      with g show False by (simp add: is_gap_def double_three_tenths)
    qed
  qed
qed

lemma map_of_counter_add:
  "map_of (counter_add c k) k'
   = (if k' = k then Some (case map_of c k of None \<Rightarrow> 1 | Some n \<Rightarrow> Suc n) else map_of c k')"
  by (induction c k rule: counter_add.induct) auto

lemma keys_counter_add: "fst ` set (counter_add c k) = insert k (fst ` set c)"
  by (induction c k rule: counter_add.induct) auto

lemma distinct_counter_add:
  "distinct (map fst c) \<Longrightarrow> distinct (map fst (counter_add c k))"
proof (induction c k rule: counter_add.induct)
  case (1 k)
  then show ?case by simp
next
  case (2 k' n rest k)
  then show ?case using keys_counter_add [of rest k] by auto
qed

lemma fold_counter:
  "distinct (map fst c) \<Longrightarrow>
   distinct (map fst (fold (\<lambda>k c. counter_add c k) xs c))
   \<and> map_of (fold (\<lambda>k c. counter_add c k) xs c) k
     = (case map_of c k of
          None \<Rightarrow> if k \<in> set xs then Some (count_list xs k) else None
        | Some n \<Rightarrow> Some (n + count_list xs k))"
proof (induction xs arbitrary: c)
  case Nil
  then show ?case by (simp split: option.splits)
next
  case (Cons x xs)
  from Cons.prems have d: "distinct (map fst (counter_add c x))" by (rule distinct_counter_add)
  from Cons.IH [OF d] show ?case
    by (auto simp: map_of_counter_add split: option.splits)
qed

lemma counter_distinct: "distinct (map fst (counter xs))"
  using fold_counter [of "[]" xs] by (simp add: counter_def)

lemma map_of_counter:
  "map_of (counter xs) k = (if k \<in> set xs then Some (count_list xs k) else None)"
  using fold_counter [of "[]" xs k] by (simp add: counter_def)

lemma counter_member:
  "(k, n) \<in> set (counter xs) \<longleftrightarrow> k \<in> set xs \<and> n = count_list xs k"
proof -
  have "(k, n) \<in> set (counter xs) \<longleftrightarrow> map_of (counter xs) k = Some n"
    using map_of_eq_Some_iff [OF counter_distinct, of xs k n] by simp
  also have "\<dots> \<longleftrightarrow> k \<in> set xs \<and> n = count_list xs k"
    by (auto simp: map_of_counter)
  finally show ?thesis .
qed

lemma gaps_loop_pos:
  "0 < t \<Longrightarrow>
   gaps_loop items t = Inr (map (\<lambda>(s, c). (s, c, t)) (filter (\<lambda>(s, c). is_gap c t) items))"
  by (induction items t rule: gaps_loop.induct) auto

lemma count_list_pos: "k \<in> set xs \<Longrightarrow> 0 < count_list xs k"
  by (induction xs) auto

lemma three_of_ten_eval: "service_gaps three_of_ten = Inr []"
  by code_simp

lemma one_of_four_eval: "service_gaps one_of_four = Inr [(''Gutter'', 1, 4)]"
  by code_simp

lemma is_gap_beyond_bound: "\<not> is_gap 29999999999999999 100000000000000000"
  by (simp add: is_gap_def) code_simp

text \<open>
  Claim C6. For a collection of competitors that is not empty, and every service that
  some competitor offers, the service is recorded as a gap, with its count and the
  number of competitors, exactly when the quotient of the two, as the program computes
  it in double precision, is less than the double written \<open>0.3\<close>. For fewer than
  \<open>2 ^ 51\<close> competitors, which is more than a list in memory can hold, that is the case
  exactly when the count divided by the number of competitors is less than 3/10 as a
  fraction. With three competitors of ten the service is no gap.
\<close>

theorem service_gap_iff:
  assumes "cs \<noteq> []" and "s \<in> set (concat (map services cs))"
  shows "\<exists>gaps. service_gaps cs = Inr gaps
       \<and> (s \<in> fst ` set gaps
            \<longleftrightarrow> (s, count_list (concat (map services cs)) s, length cs) \<in> set gaps)
       \<and> (s \<in> fst ` set gaps
            \<longleftrightarrow> to_double (of_nat (count_list (concat (map services cs)) s) / of_nat (length cs))
                < to_double (3 / 10))
       \<and> (length cs < 2 ^ 51 \<longrightarrow>
            (s \<in> fst ` set gaps
              \<longleftrightarrow> of_nat (count_list (concat (map services cs)) s) / of_nat (length cs)
                  < (3 / 10 :: rat)))"
proof -
  let ?all = "concat (map services cs)"
  let ?t = "length cs"
  let ?c = "count_list ?all s"
  let ?gaps = "map (\<lambda>(s, c). (s, c, ?t)) (filter (\<lambda>(s, c). is_gap c ?t) (counter ?all))"
  from assms(1) have t: "0 < ?t" by simp
  from assms(2) have c: "0 < ?c" by (rule count_list_pos)
  have g: "service_gaps cs = Inr ?gaps"
    by (simp add: service_gaps_def Let_def gaps_loop_pos [OF t])
  have k: "(s, ?c) \<in> set (counter ?all)"
    using assms(2) by (simp only: counter_member)
  have m1: "(s, ?c, ?t) \<in> set ?gaps \<longleftrightarrow> is_gap ?c ?t"
  proof
    assume "(s, ?c, ?t) \<in> set ?gaps"
    then show "is_gap ?c ?t" by auto
  next
    assume "is_gap ?c ?t"
    with k have "(s, ?c) \<in> set (filter (\<lambda>(s, c). is_gap c ?t) (counter ?all))" by simp
    then have "(\<lambda>(s, c). (s, c, ?t)) (s, ?c) \<in> set ?gaps"
      unfolding set_map by (rule imageI)
    then show "(s, ?c, ?t) \<in> set ?gaps" by simp
  qed
  have m2: "s \<in> fst ` set ?gaps \<longleftrightarrow> is_gap ?c ?t"
  proof
    assume "s \<in> fst ` set ?gaps"
    then obtain c where "(s, c) \<in> set (counter ?all)" and "is_gap c ?t" by auto
    then show "is_gap ?c ?t" by (simp add: counter_member)
  next
    assume "is_gap ?c ?t"
    with m1 have "(s, ?c, ?t) \<in> set ?gaps" by simp
    then have "fst (s, ?c, ?t) \<in> fst ` set ?gaps" by (rule imageI)
    then show "s \<in> fst ` set ?gaps" by simp
  qed
  have fl: "is_gap ?c ?t \<longleftrightarrow> to_double (of_nat ?c / of_nat ?t) < to_double (3 / 10)"
    by (simp only: is_gap_def)
  have r: "is_gap ?c ?t \<longleftrightarrow> of_nat ?c / of_nat ?t < (3 / 10 :: rat)" if b: "?t < 2 ^ 51"
  proof -
    have "(of_nat ?c / of_nat ?t < (3 / 10 :: rat))
          \<longleftrightarrow> (10 * of_nat ?c < (3 * of_nat ?t :: rat))"
      using t by (simp add: field_simps)
    also have "\<dots> \<longleftrightarrow> (of_nat (10 * ?c) < (of_nat (3 * ?t) :: rat))" by simp
    also have "\<dots> \<longleftrightarrow> 10 * ?c < 3 * ?t" by (simp only: of_nat_less_iff)
    also have "\<dots> \<longleftrightarrow> is_gap ?c ?t" using is_gap_iff [OF c t b] by simp
    finally show ?thesis by simp
  qed
  from g m1 m2 fl r show ?thesis by blast
qed

theorem service_gap_iff_witness:
  "three_of_ten \<noteq> [] \<and> length three_of_ten < 2 ^ 51
   \<and> ''Gutter'' \<in> set (concat (map services three_of_ten))
   \<and> count_list (concat (map services three_of_ten)) ''Gutter'' = 3
   \<and> length three_of_ten = 10
   \<and> service_gaps three_of_ten = Inr []
   \<and> \<not> (of_nat (count_list (concat (map services three_of_ten)) ''Gutter'')
          / of_nat (length three_of_ten) < (3 / 10 :: rat))"
proof -
  have h1: "three_of_ten \<noteq> []" by (simp add: three_of_ten_def)
  have h2: "length three_of_ten < 2 ^ 51" by (simp add: three_of_ten_def)
  have h3: "''Gutter'' \<in> set (concat (map services three_of_ten))"
    by (simp add: three_of_ten_def offering_def)
  have n: "count_list (concat (map services three_of_ten)) ''Gutter'' = 3"
    by (simp add: three_of_ten_def offering_def numeral_3_eq_3)
  have l: "length three_of_ten = 10" by (simp add: three_of_ten_def)
  from service_gap_iff [OF h1 h3] h2 three_of_ten_eval
  have "\<not> (of_nat (count_list (concat (map services three_of_ten)) ''Gutter'')
          / of_nat (length three_of_ten) < (3 / 10 :: rat))"
    by auto
  with h1 h2 h3 n l three_of_ten_eval show ?thesis by blast
qed

end
